theory Spec2Isabelle
  imports Complex_Main "HOL-Library.Product_Lexorder" "HOL-Library.Multiset"
begin

section \<open>Timestamps and durations\<close>

text \<open>
  The program (\<^verbatim>\<open>src/main.py\<close>) computes with Python's naive \<^verbatim>\<open>datetime\<close> and
  \<^verbatim>\<open>timedelta\<close>, whose resolution is one microsecond. A timestamp is modelled as the
  integer number of microseconds since \<^verbatim>\<open>datetime.min\<close>, midnight of 1 January of year 1,
  so that calendar days are the multiples of \<open>usec_per_day\<close>. Modelling choices:
  \<^item> a \<^verbatim>\<open>datetime\<close> lies between \<^verbatim>\<open>datetime.min\<close> and \<^verbatim>\<open>datetime.max\<close>, the last
    microsecond of year 9999, and a \<^verbatim>\<open>timedelta\<close> between \<^verbatim>\<open>timedelta.min\<close> and
    \<^verbatim>\<open>timedelta.max\<close>: an addition that leaves either range raises
    \<^verbatim>\<open>OverflowError\<close>, which is a result of the model;
  \<^item> Python floats (\<^verbatim>\<open>estimated_hours\<close>, the remaining minutes, a block's
    \<^verbatim>\<open>minutes\<close>) are modelled as exact reals, without the rounding of IEEE doubles,
    and \<^verbatim>\<open>timedelta\<close> rounds the exact number of microseconds; for this reason no
    theorem states how the minutes of the blocks of a task add up;
  \<^item> the ISO-8601 strings under \<^verbatim>\<open>"due"\<close>, \<^verbatim>\<open>"start"\<close> and \<^verbatim>\<open>"end"\<close> are modelled
    by the timestamps they denote (\<^verbatim>\<open>fromisoformat\<close> after \<^verbatim>\<open>isoformat\<close> is the
    identity), so malformed strings and missing keys are outside the model;
  \<^item> \<^verbatim>\<open>datetime.now()\<close> is a parameter \<open>now\<close> of the functions that read the clock.
\<close>

type_synonym datetime = int

definition usec_per_minute :: int where
  "usec_per_minute = 60000000"

definition usec_per_hour :: int where
  "usec_per_hour = 3600000000"

definition usec_per_day :: int where
  "usec_per_day = 86400000000"

text \<open>The attribute \<^verbatim>\<open>current.hour\<close>: the hour of the day, in \<open>0..23\<close>.\<close>

definition hour :: "datetime \<Rightarrow> int" where
  "hour t = (t div usec_per_hour) mod 24"

datatype error = ValueError | OverflowError

text \<open>
  \<^verbatim>\<open>datetime.max\<close> is 9999-12-31 23:59:59.999999, the last microsecond of day 3652059;
  \<^verbatim>\<open>timedelta.min\<close> is \<open>-999999999\<close> days and \<^verbatim>\<open>timedelta.max\<close> is one microsecond
  less than \<open>1000000000\<close> days.
\<close>

definition max_datetime :: int where
  "max_datetime = 315537897599999999"

definition timedelta_min :: int where
  "timedelta_min = - 86399999913600000000"

definition timedelta_max :: int where
  "timedelta_max = 86399999999999999999"

definition valid_datetime :: "datetime \<Rightarrow> bool" where
  "valid_datetime t \<longleftrightarrow> 0 \<le> t \<and> t \<le> max_datetime"

text \<open>
  \<^verbatim>\<open>t + timedelta(...)\<close> for a duration of \<open>d\<close> microseconds: building the
  \<^verbatim>\<open>timedelta\<close> and adding it both raise \<^verbatim>\<open>OverflowError\<close> out of range.
\<close>

definition add_timedelta :: "datetime \<Rightarrow> int \<Rightarrow> error + datetime" where
  "add_timedelta t d =
     (if timedelta_min \<le> d \<and> d \<le> timedelta_max \<and> 0 \<le> t + d \<and> t + d \<le> max_datetime
      then Inr (t + d) else Inl OverflowError)"

text \<open>
  \<^verbatim>\<open>t.replace(hour=h, minute=0, second=0, microsecond=0)\<close>: the same calendar day at
  \<open>h\<close> o'clock. Python raises \<^verbatim>\<open>ValueError\<close> when \<open>h\<close> is not in \<open>0..23\<close>.
\<close>

definition replace_hour :: "datetime \<Rightarrow> int \<Rightarrow> error + datetime" where
  "replace_hour t h =
     (if 0 \<le> h \<and> h \<le> 23 then Inr ((t div usec_per_day) * usec_per_day + h * usec_per_hour)
      else Inl ValueError)"

text \<open>
  The length in microseconds of \<^verbatim>\<open>timedelta(minutes=m)\<close> for a float \<open>m\<close>: rounded to
  the nearest microsecond, ties going to the even microsecond.
\<close>

definition round_half_even :: "real \<Rightarrow> int" where
  "round_half_even x =
     (let f = \<lfloor>x\<rfloor>; d = x - of_int f
      in if d < 1 / 2 then f
         else if 1 / 2 < d then f + 1
         else if even f then f else f + 1)"

definition timedelta_minutes :: "real \<Rightarrow> int" where
  "timedelta_minutes m = round_half_even (m * 60000000)"

text \<open>
  The length in microseconds of \<^verbatim>\<open>timedelta(hours=h)\<close> for an integer \<open>h\<close> (the
  annotation of \<^verbatim>\<open>hours_ahead\<close>).
\<close>

definition timedelta_hours :: "int \<Rightarrow> int" where
  "timedelta_hours h = h * usec_per_hour"

section \<open>Data\<close>

text \<open>
  Tasks, profiles and blocks are Python dictionaries. A key read with
  \<^verbatim>\<open>d[key]\<close> is a field; a key read with \<^verbatim>\<open>d.get(key, default)\<close> is an optional
  field, \<open>None\<close> when the key is absent.
\<close>

record task =
  title :: string
  subject :: "string option"
  due :: datetime
  estimated_hours :: "real option"
  priority :: "int option"

record profile =
  daily_start_hour :: "int option"
  daily_end_hour :: "int option"
  max_session_minutes :: "int option"

record block =
  b_title :: string
  b_subject :: string
  b_start :: datetime
  b_end :: datetime
  b_minutes :: real

text \<open>\<^verbatim>\<open>d.get(key, default)\<close>.\<close>

definition get_or :: "'a option \<Rightarrow> 'a \<Rightarrow> 'a" where
  "get_or v d = (case v of None \<Rightarrow> d | Some x \<Rightarrow> x)"

definition daily_start :: "profile \<Rightarrow> int" where
  "daily_start p = get_or (daily_start_hour p) 8"

definition daily_end :: "profile \<Rightarrow> int" where
  "daily_end p = get_or (daily_end_hour p) 22"

definition max_session :: "profile \<Rightarrow> int" where
  "max_session p = get_or (max_session_minutes p) 50"

section \<open>The scheduler\<close>

text \<open>
  The window check at the top of the inner loop (lines 97 to 102 of the source): before
  \<open>daily_start\<close> the cursor moves to \<open>daily_start\<close> of the same day, at or after
  \<open>daily_end\<close> to \<open>daily_start\<close> of the next day, and otherwise it stays. The next day
  is computed first, by \<^verbatim>\<open>current + timedelta(days=1)\<close>, and its hour replaced after.
\<close>

definition snap :: "profile \<Rightarrow> datetime \<Rightarrow> error + datetime" where
  "snap p current =
     (if hour current < daily_start p then replace_hour current (daily_start p)
      else if daily_end p \<le> hour current then
        (case add_timedelta current usec_per_day of
           Inl e \<Rightarrow> Inl e
         | Inr tomorrow \<Rightarrow> replace_hour tomorrow (daily_start p))
      else Inr current)"

text \<open>
  The inner \<^verbatim>\<open>while\<close> loop of \<^verbatim>\<open>generate_schedule\<close> for one task. Its state is the
  remaining minutes, the cursor \<open>current\<close> and the plan built so far; \<^verbatim>\<open>break\<close>
  returns the state as it is. The end of the session and the next cursor are datetime
  additions, which may raise. The result is \<open>None\<close> when the loop runs forever.
\<close>

partial_function (option) while_loop ::
  "profile \<Rightarrow> task \<Rightarrow> real \<Rightarrow> datetime \<Rightarrow> block list \<Rightarrow> (error + datetime \<times> block list) option"
where
  "while_loop p t remaining current plan =
     (if 0 < remaining \<and> current < due t then
        (case snap p current of
           Inl e \<Rightarrow> Some (Inl e)
         | Inr cur \<Rightarrow>
            (let session_minutes = min (real_of_int (max_session p)) remaining
             in case add_timedelta cur (timedelta_minutes session_minutes) of
                  Inl e \<Rightarrow> Some (Inl e)
                | Inr end \<Rightarrow>
                    if due t < end then Some (Inr (cur, plan))
                    else
                      (case add_timedelta end (10 * usec_per_minute) of
                         Inl e \<Rightarrow> Some (Inl e)
                       | Inr next_current \<Rightarrow>
                           while_loop p t (remaining - session_minutes) next_current
                             (plan @ [\<lparr>b_title = title t, b_subject = get_or (subject t) [],
                                       b_start = cur, b_end = end,
                                       b_minutes = session_minutes\<rparr>]))))
      else Some (Inr (current, plan)))"

text \<open>\<^verbatim>\<open>float(task.get("estimated_hours", 1.0)) * 60.0\<close>.\<close>

definition est_minutes :: "task \<Rightarrow> real" where
  "est_minutes t = get_or (estimated_hours t) 1 * 60"

text \<open>The \<^verbatim>\<open>for\<close> loop over the sorted tasks, which shares one cursor and one plan.\<close>

fun for_tasks ::
  "profile \<Rightarrow> task list \<Rightarrow> datetime \<Rightarrow> block list \<Rightarrow> (error + datetime \<times> block list) option"
where
  "for_tasks p [] current plan = Some (Inr (current, plan))"
| "for_tasks p (t # ts) current plan =
     (case while_loop p t (est_minutes t) current plan of
        None \<Rightarrow> None
      | Some (Inl e) \<Rightarrow> Some (Inl e)
      | Some (Inr (current', plan')) \<Rightarrow> for_tasks p ts current' plan')"

text \<open>
  The sort key \<^verbatim>\<open>(datetime.fromisoformat(t["due"]), -t.get("priority", 3))\<close>; pairs are
  ordered lexicographically. Python's \<^verbatim>\<open>sorted\<close> is stable, and so is \<open>sort_key\<close>.
\<close>

definition task_key :: "task \<Rightarrow> datetime \<times> int" where
  "task_key t = (due t, - get_or (priority t) 3)"

definition sorted_tasks :: "task list \<Rightarrow> task list" where
  "sorted_tasks tasks = sort_key task_key tasks"

definition generate_schedule ::
  "task list \<Rightarrow> profile \<Rightarrow> datetime \<Rightarrow> (error + block list) option"
where
  "generate_schedule tasks p now =
     (case for_tasks p (sorted_tasks tasks) now [] of
        None \<Rightarrow> None
      | Some (Inl e) \<Rightarrow> Some (Inl e)
      | Some (Inr (current, plan)) \<Rightarrow> Some (Inr plan))"

section \<open>The in-memory store and the upcoming-blocks query\<close>

record user_state =
  profile :: profile
  tasks :: "task list"
  plans :: "block list"

text \<open>The loop of \<^verbatim>\<open>get_upcoming_blocks\<close>, which appends the blocks it keeps.\<close>

fun upcoming_loop :: "datetime \<Rightarrow> datetime \<Rightarrow> block list \<Rightarrow> block list \<Rightarrow> block list" where
  "upcoming_loop now horizon [] upcoming = upcoming"
| "upcoming_loop now horizon (b # bs) upcoming =
     upcoming_loop now horizon bs
       (if now \<le> b_start b \<and> b_start b \<le> horizon then upcoming @ [b] else upcoming)"

text \<open>
  \<^verbatim>\<open>get_upcoming_blocks\<close> computes the horizon, which may raise, then reads the stored
  plan and returns a new list; the store it leaves behind is the second component of
  the result.
\<close>

definition get_upcoming_blocks ::
  "user_state \<Rightarrow> datetime \<Rightarrow> int \<Rightarrow> error + block list \<times> user_state"
where
  "get_upcoming_blocks st now hours_ahead =
     (case add_timedelta now (timedelta_hours hours_ahead) of
        Inl e \<Rightarrow> Inl e
      | Inr horizon \<Rightarrow> Inr (upcoming_loop now horizon (plans st) [], st))"

text \<open>The call without the argument, \<^verbatim>\<open>hours_ahead\<close> taking its default 24.\<close>

definition get_upcoming_blocks_default ::
  "user_state \<Rightarrow> datetime \<Rightarrow> error + block list \<times> user_state"
where
  "get_upcoming_blocks_default st now = get_upcoming_blocks st now 24"

section \<open>Valid inputs\<close>


text \<open>Shorthands for the session length and the block that one iteration computes.\<close>

definition session :: "profile \<Rightarrow> real \<Rightarrow> real" where
  "session p remaining = min (real_of_int (max_session p)) remaining"

definition new_block :: "task \<Rightarrow> datetime \<Rightarrow> real \<Rightarrow> block" where
  "new_block t cur m =
     \<lparr>b_title = title t, b_subject = get_or (subject t) [], b_start = cur,
      b_end = cur + timedelta_minutes m, b_minutes = m\<rparr>"

section \<open>The loops as relations\<close>

text \<open>
  The blocks that the inner loop appends for one task, as a relation between the state at
  the top of the loop and the cursor at its exit: one rule for the loop condition
  failing, one for \<^verbatim>\<open>break\<close>, one for an iteration that appends a block.
\<close>

inductive emits :: "profile \<Rightarrow> task \<Rightarrow> real \<Rightarrow> datetime \<Rightarrow> block list \<Rightarrow> datetime \<Rightarrow> bool"
  for p :: profile and t :: task
where
  emits_exit: "\<not> (0 < remaining \<and> current < due t) \<Longrightarrow> emits p t remaining current [] current"
| emits_break:
    "0 < remaining \<Longrightarrow> current < due t \<Longrightarrow> snap p current = Inr cur \<Longrightarrow>
     due t < cur + timedelta_minutes (session p remaining) \<Longrightarrow>
     emits p t remaining current [] cur"
| emits_emit:
    "0 < remaining \<Longrightarrow> current < due t \<Longrightarrow> snap p current = Inr cur \<Longrightarrow>
     \<not> due t < cur + timedelta_minutes (session p remaining) \<Longrightarrow>
     emits p t (remaining - session p remaining)
       (cur + timedelta_minutes (session p remaining) + 10 * usec_per_minute) bs current' \<Longrightarrow>
     emits p t remaining current (new_block t cur (session p remaining) # bs) current'"

text \<open>
  The \<^verbatim>\<open>for\<close> loop as a relation: the list of the blocks appended for each task, in
  the order in which the tasks are processed, with the cursor handed from task to task.
\<close>

inductive runs :: "profile \<Rightarrow> task list \<Rightarrow> datetime \<Rightarrow> block list list \<Rightarrow> datetime \<Rightarrow> bool"
  for p :: profile
where
  runs_Nil: "runs p [] current [] current"
| runs_Cons:
    "emits p t (est_minutes t) current bs current1 \<Longrightarrow> runs p ts current1 bss current' \<Longrightarrow>
     runs p (t # ts) current (bs # bss) current'"

section \<open>Example inputs\<close>

text \<open>
  The profile with every key absent, so that the defaults 8, 22 and 50 apply, and times
  of day on day \<open>d\<close> after 1 January of year 1.
\<close>

definition default_profile :: profile where
  "default_profile = \<lparr>daily_start_hour = None, daily_end_hour = None, max_session_minutes = None\<rparr>"

definition on_day :: "int \<Rightarrow> int \<Rightarrow> int \<Rightarrow> datetime" where
  "on_day d h m = d * usec_per_day + h * usec_per_hour + m * usec_per_minute"

definition mk_task :: "string \<Rightarrow> datetime \<Rightarrow> real \<Rightarrow> int \<Rightarrow> task" where
  "mk_task name d hours prio =
     \<lparr>title = name, subject = None, due = d, estimated_hours = Some hours, priority = Some prio\<rparr>"

definition mk_block :: "string \<Rightarrow> datetime \<Rightarrow> datetime \<Rightarrow> real \<Rightarrow> block" where
  "mk_block name s e m = \<lparr>b_title = name, b_subject = [], b_start = s, b_end = e, b_minutes = m\<rparr>"

section \<open>One iteration of the inner loop\<close>

lemma add_timedelta_Inr: "add_timedelta t d = Inr r \<Longrightarrow> r = t + d"
  by (simp add: add_timedelta_def split: if_splits)


lemma while_loop_exit:
  "\<not> (0 < remaining \<and> current < due t) \<Longrightarrow>
   while_loop p t remaining current plan = Some (Inr (current, plan))"
  by (subst while_loop.simps) auto

lemma while_loop_error:
  "0 < remaining \<Longrightarrow> current < due t \<Longrightarrow> snap p current = Inl e \<Longrightarrow>
   while_loop p t remaining current plan = Some (Inl e)"
  by (subst while_loop.simps) simp

lemma while_loop_end_error:
  "0 < remaining \<Longrightarrow> current < due t \<Longrightarrow> snap p current = Inr cur \<Longrightarrow>
   add_timedelta cur (timedelta_minutes (session p remaining)) = Inl e \<Longrightarrow>
   while_loop p t remaining current plan = Some (Inl e)"
  by (subst while_loop.simps) (simp add: Let_def session_def)

lemma while_loop_break:
  "0 < remaining \<Longrightarrow> current < due t \<Longrightarrow> snap p current = Inr cur \<Longrightarrow>
   add_timedelta cur (timedelta_minutes (session p remaining)) = Inr stop \<Longrightarrow> due t < stop \<Longrightarrow>
   while_loop p t remaining current plan = Some (Inr (cur, plan))"
  by (subst while_loop.simps) (simp add: Let_def session_def)

lemma while_loop_next_error:
  "0 < remaining \<Longrightarrow> current < due t \<Longrightarrow> snap p current = Inr cur \<Longrightarrow>
   add_timedelta cur (timedelta_minutes (session p remaining)) = Inr stop \<Longrightarrow> \<not> due t < stop \<Longrightarrow>
   add_timedelta stop (10 * usec_per_minute) = Inl e \<Longrightarrow>
   while_loop p t remaining current plan = Some (Inl e)"
  by (subst while_loop.simps) (simp add: Let_def session_def)

lemma while_loop_emit:
  "0 < remaining \<Longrightarrow> current < due t \<Longrightarrow> snap p current = Inr cur \<Longrightarrow>
   add_timedelta cur (timedelta_minutes (session p remaining)) = Inr stop \<Longrightarrow> \<not> due t < stop \<Longrightarrow>
   add_timedelta stop (10 * usec_per_minute) = Inr next_current \<Longrightarrow>
   while_loop p t remaining current plan =
     while_loop p t (remaining - session p remaining) next_current
       (plan @ [new_block t cur (session p remaining)])"
  by (subst while_loop.simps)
    (auto simp: Let_def session_def new_block_def dest: add_timedelta_Inr)

lemma while_loop_emits_aux:
  "while_loop p t remaining current plan = Some y \<Longrightarrow>
   (\<forall>current' plan'. y = Inr (current', plan') \<longrightarrow>
      (\<exists>bs. plan' = plan @ bs \<and> emits p t remaining current bs current'))"
proof (induction rule: while_loop.raw_induct[rotated 1, consumes 1, case_names step])
  case (step f p t remaining current plan y)
  note 1 = step
  show ?case
  proof (cases "0 < remaining \<and> current < due t")
    case False
    with 1(2) show ?thesis by (auto intro: emits_exit)
  next
    case True
    show ?thesis
    proof (cases "snap p current")
      case (Inl e)
      with True 1(2) show ?thesis by auto
    next
      case (Inr cur)
      show ?thesis
      proof (cases "add_timedelta cur (timedelta_minutes (session p remaining))")
        case stop_err: (Inl e)
        with True Inr 1(2) show ?thesis by (auto simp: Let_def session_def)
      next
        case stop_ok: (Inr stop)
        then have stop: "stop = cur + timedelta_minutes (session p remaining)"
          by (rule add_timedelta_Inr)
        show ?thesis
        proof (cases "due t < stop")
          case brk: True
          with True Inr stop_ok 1(2) have "y = Inr (cur, plan)"
            by (simp add: Let_def session_def)
          moreover from True Inr brk stop have "emits p t remaining current [] cur"
            by (intro emits_break) simp_all
          ultimately show ?thesis by simp
        next
          case emit: False
          show ?thesis
          proof (cases "add_timedelta stop (10 * usec_per_minute)")
            case next_err: (Inl e)
            with True Inr stop_ok emit 1(2) show ?thesis by (auto simp: Let_def session_def)
          next
            case next_ok: (Inr next_current)
            then have nxt: "next_current = stop + 10 * usec_per_minute"
              by (rule add_timedelta_Inr)
            from True Inr stop_ok emit next_ok 1(2) stop
            have rec: "f p t (remaining - session p remaining) next_current
               (plan @ [new_block t cur (session p remaining)]) = Some y"
              by (simp add: Let_def session_def new_block_def)
            show ?thesis
            proof (intro allI impI)
              fix current' plan'
              assume y: "y = Inr (current', plan')"
              from 1(1)[OF rec] y obtain bs where
                bs: "plan' = (plan @ [new_block t cur (session p remaining)]) @ bs"
                  "emits p t (remaining - session p remaining) next_current bs current'"
                by blast
              from True Inr emit bs(2) stop nxt
              have "emits p t remaining current (new_block t cur (session p remaining) # bs) current'"
                by (intro emits_emit) simp_all
              with bs(1) show "\<exists>bs. plan' = plan @ bs \<and> emits p t remaining current bs current'"
                by auto
            qed
          qed
        qed
      qed
    qed
  qed
qed

lemma while_loop_emits:
  "while_loop p t remaining current plan = Some (Inr (current', plan')) \<Longrightarrow>
   \<exists>bs. plan' = plan @ bs \<and> emits p t remaining current bs current'"
  using while_loop_emits_aux by blast

section \<open>Durations\<close>

lemma round_half_even_nonneg: "0 \<le> x \<Longrightarrow> 0 \<le> round_half_even x"
  by (auto simp: round_half_even_def Let_def)



lemma timedelta_minutes_nonneg: "0 \<le> m \<Longrightarrow> 0 \<le> timedelta_minutes m"
  by (simp add: timedelta_minutes_def round_half_even_nonneg)




lemma session_pos: "0 < max_session p \<Longrightarrow> 0 < remaining \<Longrightarrow> 0 < session p remaining"
  by (simp add: session_def)

lemma session_le: "session p remaining \<le> remaining"
  by (simp add: session_def)

lemma session_le_max: "session p remaining \<le> real_of_int (max_session p)"
  by (simp add: session_def)

section \<open>The window check\<close>

lemma hour_range: "0 \<le> hour t \<and> hour t < 24"
  by (simp add: hour_def)

lemma day_split: "t mod usec_per_day = usec_per_hour * hour t + t mod usec_per_hour"
proof -
  have "t mod (3600000000 * 24) = 3600000000 * (t div 3600000000 mod 24) + t mod 3600000000"
    by (rule zmod_zmult2_eq) simp
  then show ?thesis by (simp add: hour_def usec_per_day_def usec_per_hour_def)
qed


lemma replace_hour_same_day_forward:
  assumes "hour t < h"
  shows "t < (t div usec_per_day) * usec_per_day + h * usec_per_hour"
proof -
  have "t = (t div 86400000000) * 86400000000 + t mod 86400000000" by simp
  moreover have "t mod 3600000000 < 3600000000" by simp
  moreover have "t mod 86400000000 = 3600000000 * hour t + t mod 3600000000"
    using day_split [of t] by (simp add: usec_per_day_def usec_per_hour_def)
  moreover from assms have "hour t + 1 \<le> h" by simp
  ultimately have "t < (t div 86400000000) * 86400000000 + h * 3600000000" by linarith
  then show ?thesis by (simp add: usec_per_day_def usec_per_hour_def)
qed

lemma replace_hour_next_day_forward:
  assumes "0 \<le> h"
  shows "t < ((t + usec_per_day) div usec_per_day) * usec_per_day + h * usec_per_hour"
proof -
  have "(t + 86400000000) div 86400000000 = t div 86400000000 + 1" by simp
  moreover have "t = (t div 86400000000) * 86400000000 + t mod 86400000000" by simp
  moreover have "t mod 86400000000 < 86400000000" by simp
  ultimately have "t < ((t + 86400000000) div 86400000000) * 86400000000 + h * 3600000000"
    using assms by linarith
  then show ?thesis by (simp add: usec_per_day_def usec_per_hour_def)
qed


lemma snap_forward: "snap p current = Inr cur \<Longrightarrow> current \<le> cur"
  using replace_hour_same_day_forward [of current "daily_start p"]
    replace_hour_next_day_forward [of "daily_start p" current]
  by (auto simp: snap_def replace_hour_def add_timedelta_def split: if_splits)





section \<open>Termination of the inner loop\<close>

lemma while_loop_terminates:
  assumes "0 < max_session p"
  shows "\<exists>y. while_loop p t remaining current plan = Some y"
proof (induction "nat (due t - current)" arbitrary: remaining current plan rule: less_induct)
  case less
  show ?case
  proof (cases "0 < remaining \<and> current < due t")
    case False
    then show ?thesis by (simp add: while_loop_exit)
  next
    case True
    show ?thesis
    proof (cases "snap p current")
      case (Inl e)
      with True show ?thesis by (simp add: while_loop_error)
    next
      case (Inr cur)
      show ?thesis
      proof (cases "add_timedelta cur (timedelta_minutes (session p remaining))")
        case (Inl e)
        with True Inr show ?thesis by (simp add: while_loop_end_error)
      next
        case stop_ok: (Inr stop)
        then have stop: "stop = cur + timedelta_minutes (session p remaining)"
          by (rule add_timedelta_Inr)
        show ?thesis
        proof (cases "due t < stop")
          case True
          with \<open>0 < remaining \<and> current < due t\<close> Inr stop_ok show ?thesis
            by (simp add: while_loop_break)
        next
          case False
          show ?thesis
          proof (cases "add_timedelta stop (10 * usec_per_minute)")
            case (Inl e)
            with True Inr stop_ok False show ?thesis by (simp add: while_loop_next_error)
          next
            case next_ok: (Inr next_current)
            then have nxt: "next_current = stop + 10 * usec_per_minute"
              by (rule add_timedelta_Inr)
            from assms True have "0 \<le> timedelta_minutes (session p remaining)"
              by (intro timedelta_minutes_nonneg less_imp_le session_pos) simp_all
            moreover from Inr have "current \<le> cur" by (rule snap_forward)
            ultimately have "nat (due t - next_current) < nat (due t - current)"
              using True stop nxt by (simp add: usec_per_minute_def)
            from less [OF this] obtain y where
              "while_loop p t (remaining - session p remaining) next_current
                 (plan @ [new_block t cur (session p remaining)]) = Some y"
              by blast
            with True Inr stop_ok False next_ok show ?thesis by (simp add: while_loop_emit)
          qed
        qed
      qed
    qed
  qed
qed

lemma for_tasks_terminates:
  assumes "0 < max_session p"
  shows "\<exists>y. for_tasks p ts current plan = Some y"
proof (induction ts arbitrary: current plan)
  case Nil
  show ?case by simp
next
  case (Cons t ts)
  from while_loop_terminates [OF assms] obtain y where
    y: "while_loop p t (est_minutes t) current plan = Some y" by blast
  show ?case
  proof (cases y)
    case (Inl e)
    with y show ?thesis by simp
  next
    case (Inr cp)
    with y Cons [of "fst cp" "snd cp"] show ?thesis by (cases cp) simp
  qed
qed

text \<open>
  The assumption on \<open>max_session_minutes\<close> is needed: with \<open>max_session_minutes = -10\<close>
  each iteration appends a block of \<open>-10\<close> minutes and puts the cursor back where it
  was, so the loop never returns.
\<close>

lemma while_loop_diverges_aux:
  "while_loop p t remaining current plan = Some y \<Longrightarrow>
   \<not> (p = \<lparr>daily_start_hour = None, daily_end_hour = None, max_session_minutes = Some (- 10)\<rparr> \<and>
      t = mk_task ''essay'' (on_day 0 12 0) 1 3 \<and> current = on_day 0 9 0 \<and> 0 < remaining)"
proof (induction rule: while_loop.raw_induct[rotated 1, consumes 1, case_names step])
  case (step f p t remaining current plan y)
  show ?case
  proof
    assume a: "p = \<lparr>daily_start_hour = None, daily_end_hour = None, max_session_minutes = Some (- 10)\<rparr> \<and>
      t = mk_task ''essay'' (on_day 0 12 0) 1 3 \<and> current = on_day 0 9 0 \<and> 0 < remaining"
    then have s: "snap p current = Inr (on_day 0 9 0)" "current < due t"
      "min (real_of_int (max_session p)) remaining = - 10"
      by (simp_all add: snap_def hour_def daily_start_def daily_end_def max_session_def get_or_def
          on_day_def mk_task_def usec_per_day_def usec_per_hour_def usec_per_minute_def)
    have td: "timedelta_minutes (- 10) = - 600000000"
      by (simp add: timedelta_minutes_def round_half_even_def)
    have stop: "add_timedelta (on_day 0 9 0) (- 600000000) = Inr (on_day 0 8 50)"
      by (simp add: add_timedelta_def timedelta_min_def timedelta_max_def max_datetime_def
          on_day_def usec_per_day_def usec_per_hour_def usec_per_minute_def)
    have nxt: "add_timedelta (on_day 0 8 50) (10 * usec_per_minute) = Inr (on_day 0 9 0)"
      by (simp add: add_timedelta_def timedelta_min_def timedelta_max_def max_datetime_def
          on_day_def usec_per_day_def usec_per_hour_def usec_per_minute_def)
    from a have d: "\<not> due t < on_day 0 8 50"
      by (simp add: on_day_def mk_task_def usec_per_day_def usec_per_hour_def usec_per_minute_def)
    from step(2) a s td stop nxt d obtain pl where
      "f p t (remaining + 10) (on_day 0 9 0) pl = Some y"
      by (simp add: Let_def)
    from step(1) [OF this] a show False by simp
  qed
qed

lemma while_loop_diverges:
  "while_loop \<lparr>daily_start_hour = None, daily_end_hour = None, max_session_minutes = Some (- 10)\<rparr>
     (mk_task ''essay'' (on_day 0 12 0) 1 3) 60 (on_day 0 9 0) [] = None"
proof (cases "while_loop \<lparr>daily_start_hour = None, daily_end_hour = None, max_session_minutes = Some (- 10)\<rparr>
     (mk_task ''essay'' (on_day 0 12 0) 1 3) 60 (on_day 0 9 0) []")
  case None
  then show ?thesis .
next
  case (Some y)
  from while_loop_diverges_aux [OF this] show ?thesis by simp
qed

section \<open>What the inner loop appends\<close>

lemma emits_cursor:
  assumes "0 < max_session p" "emits p t remaining current bs current'"
  shows "current \<le> current'"
  using assms(2)
proof (induction rule: emits.induct)
  case (emits_exit remaining current)
  show ?case by simp
next
  case (emits_break remaining current cur)
  then show ?case by (simp add: snap_forward)
next
  case (emits_emit remaining current cur bs current')
  from assms(1) emits_emit(1) have "0 \<le> timedelta_minutes (session p remaining)"
    by (intro timedelta_minutes_nonneg less_imp_le session_pos)
  moreover from emits_emit(3) have "current \<le> cur" by (rule snap_forward)
  ultimately show ?case using emits_emit.IH by (simp add: usec_per_minute_def)
qed

text \<open>The facts about one appended block that need no assumption on the profile.\<close>

lemma emits_block:
  assumes "emits p t remaining current bs current'" "b \<in> set bs"
  shows "b_title b = title t \<and> b_subject b = get_or (subject t) [] \<and>
         b_end b = b_start b + timedelta_minutes (b_minutes b) \<and> b_end b \<le> due t \<and>
         (\<exists>r c. 0 < r \<and> snap p c = Inr (b_start b) \<and> b_minutes b = session p r)"
  using assms
proof (induction rule: emits.induct)
  case (emits_emit remaining current cur bs current')
  show ?case
  proof (cases "b = new_block t cur (session p remaining)")
    case True
    with emits_emit(1,3,4) show ?thesis by (auto simp: new_block_def)
  next
    case False
    with emits_emit.prems emits_emit.IH show ?thesis by simp
  qed
qed simp_all

text \<open>With a positive maximum session length the cursor only moves forward.\<close>

lemma emits_block_order:
  assumes "0 < max_session p" "emits p t remaining current bs current'" "b \<in> set bs"
  shows "current \<le> b_start b \<and> b_start b \<le> b_end b \<and> b_end b + 10 * usec_per_minute \<le> current' \<and>
         0 < b_minutes b \<and> b_minutes b \<le> real_of_int (max_session p)"
  using assms(2,3)
proof (induction rule: emits.induct)
  case (emits_emit remaining current cur bs current')
  from assms(1) emits_emit(1) have pos: "0 < session p remaining" by (rule session_pos)
  then have td: "0 \<le> timedelta_minutes (session p remaining)"
    by (intro timedelta_minutes_nonneg less_imp_le)
  from emits_emit(3) have fwd: "current \<le> cur" by (rule snap_forward)
  from assms(1) emits_emit(5) have mono:
    "cur + timedelta_minutes (session p remaining) + 10 * usec_per_minute \<le> current'"
    by (rule emits_cursor)
  show ?case
  proof (cases "b = new_block t cur (session p remaining)")
    case True
    with pos td fwd mono show ?thesis by (simp add: new_block_def session_le_max)
  next
    case False
    with emits_emit.prems emits_emit.IH td fwd show ?thesis
      by (simp add: usec_per_minute_def)
  qed
qed simp_all

lemma emits_gap:
  assumes "0 < max_session p" "emits p t remaining current bs current'"
  shows "sorted_wrt (\<lambda>a b. b_end a + 10 * usec_per_minute \<le> b_start b) bs"
  using assms(2)
proof (induction rule: emits.induct)
  case (emits_emit remaining current cur bs current')
  have "b_end (new_block t cur (session p remaining)) + 10 * usec_per_minute \<le> b_start b"
    if "b \<in> set bs" for b
    using emits_block_order [OF assms(1) emits_emit(5) that] by (simp add: new_block_def)
  with emits_emit.IH show ?case by simp
qed simp_all


section \<open>What a whole run appends\<close>

lemma for_tasks_runs:
  "for_tasks p ts current plan = Some (Inr (current', plan')) \<Longrightarrow>
   \<exists>bss. plan' = plan @ concat bss \<and> runs p ts current bss current'"
proof (induction ts arbitrary: current plan)
  case Nil
  then have "plan' = plan @ concat []" "runs p [] current [] current'"
    by (auto intro: runs_Nil)
  then show ?case by blast
next
  case (Cons t ts)
  from Cons.prems obtain current1 plan1 where
    w: "while_loop p t (est_minutes t) current plan = Some (Inr (current1, plan1))" and
    f: "for_tasks p ts current1 plan1 = Some (Inr (current', plan'))"
    by (auto split: option.splits sum.splits)
  from while_loop_emits [OF w] obtain bs where
    bs: "plan1 = plan @ bs" "emits p t (est_minutes t) current bs current1" by blast
  from Cons.IH [OF f] obtain bss where
    bss: "plan' = plan1 @ concat bss" "runs p ts current1 bss current'" by blast
  from bs(2) bss(2) have "runs p (t # ts) current (bs # bss) current'" by (rule runs_Cons)
  with bs(1) bss(1) show ?case by (intro exI [of _ "bs # bss"]) simp
qed

lemma generate_schedule_runs:
  assumes "generate_schedule ts p now = Some (Inr plan)"
  shows "\<exists>bss current'. plan = concat bss \<and> runs p (sorted_tasks ts) now bss current'"
proof -
  from assms obtain current' where
    "for_tasks p (sorted_tasks ts) now [] = Some (Inr (current', plan))"
    by (auto simp: generate_schedule_def split: option.splits sum.splits)
  from for_tasks_runs [OF this] show ?thesis by auto
qed

lemma runs_all2:
  "runs p ts current bss current' \<Longrightarrow>
   list_all2 (\<lambda>t bs. \<exists>c c'. emits p t (est_minutes t) c bs c') ts bss"
  by (induction rule: runs.induct) auto

lemma runs_cursor:
  assumes "0 < max_session p" "runs p ts current bss current'"
  shows "current \<le> current'"
  using assms(2)
proof (induction rule: runs.induct)
  case (runs_Cons t current bs current1 ts bss current')
  from assms(1) runs_Cons(1) have "current \<le> current1" by (rule emits_cursor)
  with runs_Cons.IH show ?case by simp
qed simp

lemma runs_block_order:
  assumes "0 < max_session p" "runs p ts current bss current'" "b \<in> set (concat bss)"
  shows "current \<le> b_start b \<and> b_end b + 10 * usec_per_minute \<le> current'"
  using assms(2,3)
proof (induction rule: runs.induct)
  case (runs_Cons t current bs current1 ts bss current')
  from assms(1) runs_Cons(1) have c1: "current \<le> current1" by (rule emits_cursor)
  from assms(1) runs_Cons(2) have c2: "current1 \<le> current'" by (rule runs_cursor)
  show ?case
  proof (cases "b \<in> set bs")
    case True
    from emits_block_order [OF assms(1) runs_Cons(1) True] c2 show ?thesis by simp
  next
    case False
    with runs_Cons.prems have "b \<in> set (concat bss)" by simp
    from runs_Cons.IH [OF this] c1 show ?thesis by simp
  qed
qed simp

lemma runs_gap:
  assumes "0 < max_session p" "runs p ts current bss current'"
  shows "sorted_wrt (\<lambda>a b. b_end a + 10 * usec_per_minute \<le> b_start b) (concat bss)"
  using assms(2)
proof (induction rule: runs.induct)
  case (runs_Cons t current bs current1 ts bss current')
  have "b_end x + 10 * usec_per_minute \<le> b_start y"
    if "x \<in> set bs" "y \<in> set (concat bss)" for x y
    using emits_block_order [OF assms(1) runs_Cons(1) that(1)]
      runs_block_order [OF assms(1) runs_Cons(2) that(2)] by simp
  with runs_Cons.IH emits_gap [OF assms(1) runs_Cons(1)] show ?case
    by (simp add: sorted_wrt_append)
qed simp

lemma runs_block:
  assumes "runs p ts current bss current'" "b \<in> set (concat bss)"
  shows "\<exists>t r c bs c'. emits p t r c bs c' \<and> b \<in> set bs"
  using assms by (induction rule: runs.induct) (simp, fastforce)

text \<open>The facts about every block of a returned plan.\<close>

lemma plan_block:
  assumes "generate_schedule ts p now = Some (Inr plan)" "b \<in> set plan"
  shows "\<exists>t r c bs c'. emits p t r c bs c' \<and> b \<in> set bs"
proof -
  from generate_schedule_runs [OF assms(1)] obtain bss current' where
    "plan = concat bss" "runs p (sorted_tasks ts) now bss current'" by blast
  with assms(2) show ?thesis using runs_block by blast
qed

lemma plan_gap:
  assumes "0 < max_session p" "generate_schedule ts p now = Some (Inr plan)"
  shows "sorted_wrt (\<lambda>a b. b_end a + 10 * usec_per_minute \<le> b_start b) plan"
proof -
  from generate_schedule_runs [OF assms(2)] obtain bss current' where
    "plan = concat bss" "runs p (sorted_tasks ts) now bss current'" by blast
  with runs_gap [OF assms(1)] show ?thesis by blast
qed

lemma generate_schedule_terminates:
  assumes "0 < max_session p"
  shows "\<exists>y. generate_schedule ts p now = Some y"
proof -
  from for_tasks_terminates [OF assms] obtain y where
    "for_tasks p (sorted_tasks ts) now [] = Some y" by blast
  then show ?thesis by (cases y) (auto simp: generate_schedule_def)
qed




section \<open>Runs that stay inside the datetime range\<close>



section \<open>Evaluating a run\<close>

lemmas eval_defs = while_loop_exit while_loop_error while_loop_end_error while_loop_break
  while_loop_next_error while_loop_emit add_timedelta_def max_datetime_def timedelta_min_def
  timedelta_max_def session_def new_block_def est_minutes_def get_or_def snap_def hour_def replace_hour_def
  daily_start_def daily_end_def max_session_def timedelta_minutes_def round_half_even_def
  usec_per_minute_def usec_per_hour_def usec_per_day_def generate_schedule_def
  sorted_tasks_def task_key_def default_profile_def on_day_def mk_task_def mk_block_def

text \<open>
  Scenario A of the specification: one task of one hour, due at 12:00, planned at 09:00
  with the default profile.
\<close>

lemma run_scenario_A:
  "generate_schedule [mk_task ''essay'' (on_day 0 12 0) 1 3] default_profile (on_day 0 9 0) =
   Some (Inr [mk_block ''essay'' (on_day 0 9 0) (on_day 0 9 50) 50,
              mk_block ''essay'' (on_day 0 10 0) (on_day 0 10 10) 10])"
  by (simp add: eval_defs)


lemma default_max_session: "0 < max_session default_profile"
  by (simp add: eval_defs)

section \<open>Termination\<close>

text \<open>
  Claim C9. With a positive \<open>max_session_minutes\<close> the scheduler terminates: the inner
  loop returns from every state (a result, or the error that the window check or a
  datetime addition raises), and so does the whole run on every task list.
\<close>

theorem C9_scheduler_terminates:
  assumes "0 < max_session p"
  shows "(\<exists>y. while_loop p t remaining current plan = Some y) \<and>
         (\<exists>y. generate_schedule ts p now = Some y)"
  using while_loop_terminates [OF assms] generate_schedule_terminates [OF assms] by blast

theorem C9_scheduler_terminates_witness:
  "0 < max_session default_profile \<and>
   (\<exists>y. while_loop default_profile (mk_task ''essay'' (on_day 0 12 0) 1 3) 60 (on_day 0 9 0) [] = Some y) \<and>
   (\<exists>y. generate_schedule [mk_task ''essay'' (on_day 0 12 0) 1 3] default_profile (on_day 0 9 0) = Some y)"
  using C9_scheduler_terminates [OF default_max_session] default_max_session by blast

section \<open>No block in the past\<close>

text \<open>
  Claim C10. Every block of a returned plan starts at or after \<open>now\<close>: the cursor starts
  at \<open>now\<close> and, the maximum session length being positive, never moves back.
\<close>

theorem C10_blocks_not_before_now:
  assumes "0 < max_session p" "generate_schedule ts p now = Some (Inr plan)" "b \<in> set plan"
  shows "now \<le> b_start b"
proof -
  from generate_schedule_runs [OF assms(2)] obtain bss current' where
    "plan = concat bss" "runs p (sorted_tasks ts) now bss current'" by blast
  with assms(3) runs_block_order [OF assms(1)] show ?thesis by blast
qed

theorem C10_blocks_not_before_now_witness:
  "0 < max_session default_profile \<and>
   generate_schedule [mk_task ''essay'' (on_day 0 12 0) 1 3] default_profile (on_day 0 9 0) =
     Some (Inr [mk_block ''essay'' (on_day 0 9 0) (on_day 0 9 50) 50,
                mk_block ''essay'' (on_day 0 10 0) (on_day 0 10 10) 10]) \<and>
   mk_block ''essay'' (on_day 0 10 0) (on_day 0 10 10) 10 \<in>
     set [mk_block ''essay'' (on_day 0 9 0) (on_day 0 9 50) 50,
          mk_block ''essay'' (on_day 0 10 0) (on_day 0 10 10) 10] \<and>
   on_day 0 9 0 \<le> b_start (mk_block ''essay'' (on_day 0 10 0) (on_day 0 10 10) 10)"
proof -
  have "mk_block ''essay'' (on_day 0 10 0) (on_day 0 10 10) 10 \<in>
     set [mk_block ''essay'' (on_day 0 9 0) (on_day 0 9 50) 50,
          mk_block ''essay'' (on_day 0 10 0) (on_day 0 10 10) 10]" by simp
  with C10_blocks_not_before_now [OF default_max_session run_scenario_A this]
    default_max_session run_scenario_A show ?thesis by blast
qed

section \<open>Gaps and chronological order\<close>

text \<open>
  Claim C4. In a returned plan, each block starts at least ten minutes after the block
  before it ends, whichever tasks the two blocks belong to, and the start times increase
  along the plan.
\<close>

theorem C4_gap_and_order:
  assumes "0 < max_session p" "generate_schedule ts p now = Some (Inr plan)"
  shows "(\<forall>i. Suc i < length plan \<longrightarrow>
            b_end (plan ! i) + 10 * usec_per_minute \<le> b_start (plan ! Suc i)) \<and>
         sorted_wrt (\<lambda>a b. b_start a < b_start b) plan"
proof -
  have gap: "sorted_wrt (\<lambda>a b. b_end a + 10 * usec_per_minute \<le> b_start b) plan"
    using assms by (rule plan_gap)
  have le: "b_start a \<le> b_end a" if "a \<in> set plan" for a
  proof -
    from plan_block [OF assms(2) that] obtain t r c bs c' where
      "emits p t r c bs c'" "a \<in> set bs" by blast
    from emits_block_order [OF assms(1) this] show ?thesis by simp
  qed
  have "b_start a < b_start b"
    if "a \<in> set plan" "b_end a + 10 * usec_per_minute \<le> b_start b" for a b :: block
    using le [OF that(1)] that(2) by (simp add: usec_per_minute_def)
  then have "sorted_wrt (\<lambda>a b. b_start a < b_start b) plan"
    using gap by (auto intro: sorted_wrt_mono_rel [rotated])
  moreover have "b_end (plan ! i) + 10 * usec_per_minute \<le> b_start (plan ! Suc i)"
    if "Suc i < length plan" for i
    using sorted_wrt_nth_less [OF gap, of i "Suc i"] that by simp
  ultimately show ?thesis by blast
qed

theorem C4_gap_and_order_witness:
  "0 < max_session default_profile \<and>
   generate_schedule [mk_task ''essay'' (on_day 0 12 0) 1 3] default_profile (on_day 0 9 0) =
     Some (Inr [mk_block ''essay'' (on_day 0 9 0) (on_day 0 9 50) 50,
                mk_block ''essay'' (on_day 0 10 0) (on_day 0 10 10) 10]) \<and>
   b_end (mk_block ''essay'' (on_day 0 9 0) (on_day 0 9 50) 50) + 10 * usec_per_minute \<le>
     b_start (mk_block ''essay'' (on_day 0 10 0) (on_day 0 10 10) 10) \<and>
   b_start (mk_block ''essay'' (on_day 0 9 0) (on_day 0 9 50) 50) <
     b_start (mk_block ''essay'' (on_day 0 10 0) (on_day 0 10 10) 10)"
  using C4_gap_and_order [OF default_max_session run_scenario_A]
    default_max_session run_scenario_A
  by (simp add: mk_block_def)

section \<open>The upcoming-blocks query\<close>

lemma upcoming_loop_filter:
  "upcoming_loop now horizon bs upcoming =
   upcoming @ filter (\<lambda>b. now \<le> b_start b \<and> b_start b \<le> horizon) bs"
  by (induction bs arbitrary: upcoming) simp_all

lemma get_upcoming_blocks_cases:
  assumes "valid_datetime now"
  shows "get_upcoming_blocks st now hours_ahead =
    (if valid_datetime (now + hours_ahead * usec_per_hour)
     then Inr (filter (\<lambda>b. now \<le> b_start b \<and> b_start b \<le> now + hours_ahead * usec_per_hour)
            (plans st), st)
     else Inl OverflowError)"
  using assms
  by (auto simp: get_upcoming_blocks_def add_timedelta_def timedelta_hours_def valid_datetime_def
      upcoming_loop_filter timedelta_min_def timedelta_max_def max_datetime_def)

text \<open>
  Claim C8 as stated fails: \<open>hours_ahead = 10 ^ 10\<close> is positive, and the stored block one
  hour after \<open>now\<close> starts inside the interval, but the horizon lies after
  \<^verbatim>\<open>datetime.max\<close> and the query raises \<^verbatim>\<open>OverflowError\<close> instead of returning it.
\<close>

theorem C8_upcoming_blocks_counterexample:
  "(0::int) < 10 ^ 10 \<and> valid_datetime (on_day 0 9 0) \<and>
   on_day 0 9 0 \<le> b_start (mk_block ''a'' (on_day 0 10 0) (on_day 0 10 50) 50) \<and>
   b_start (mk_block ''a'' (on_day 0 10 0) (on_day 0 10 50) 50) \<le> on_day 0 9 0 + 10 ^ 10 * usec_per_hour \<and>
   get_upcoming_blocks
     \<lparr>profile = default_profile, tasks = [],
      plans = [mk_block ''a'' (on_day 0 10 0) (on_day 0 10 50) 50]\<rparr> (on_day 0 9 0) (10 ^ 10) =
   Inl OverflowError"
  by (simp add: get_upcoming_blocks_def add_timedelta_def timedelta_hours_def valid_datetime_def
      timedelta_min_def timedelta_max_def max_datetime_def mk_block_def on_day_def
      usec_per_day_def usec_per_hour_def usec_per_minute_def)

text \<open>
  Claim C8, amended. For a valid \<open>now\<close> and every \<open>hours_ahead\<close> for which \<open>now\<close> plus
  \<open>hours_ahead\<close> hours is a valid datetime, the query returns exactly the stored blocks
  whose start lies in the closed interval from \<open>now\<close> to that horizon, in the order of
  the stored plan, and leaves the store unchanged; when the horizon is not a valid
  datetime the query raises \<^verbatim>\<open>OverflowError\<close>. \<open>hours_ahead\<close> defaults to 24. With 24
  hours and a valid horizon, a stored block that starts exactly 24 hours after \<open>now\<close>
  is returned and one that starts 25 hours after \<open>now\<close> is not.
\<close>

theorem C8_upcoming_blocks:
  assumes "valid_datetime now"
  shows "(valid_datetime (now + hours_ahead * usec_per_hour) \<longrightarrow>
            get_upcoming_blocks st now hours_ahead =
              Inr (filter (\<lambda>b. now \<le> b_start b \<and> b_start b \<le> now + hours_ahead * usec_per_hour)
                     (plans st), st)) \<and>
         (\<not> valid_datetime (now + hours_ahead * usec_per_hour) \<longrightarrow>
            get_upcoming_blocks st now hours_ahead = Inl OverflowError) \<and>
         get_upcoming_blocks_default st now = get_upcoming_blocks st now 24 \<and>
         (valid_datetime (now + 24 * usec_per_hour) \<longrightarrow>
            (\<exists>upcoming. get_upcoming_blocks st now 24 = Inr (upcoming, st) \<and>
               (\<forall>b \<in> set (plans st).
                  (b_start b = now + 24 * usec_per_hour \<longrightarrow> b \<in> set upcoming) \<and>
                  (b_start b = now + 25 * usec_per_hour \<longrightarrow> b \<notin> set upcoming))))"
  by (simp add: get_upcoming_blocks_cases [OF assms] get_upcoming_blocks_default_def
      usec_per_hour_def)

theorem C8_upcoming_blocks_witness:
  "valid_datetime (on_day 0 9 0) \<and> valid_datetime (on_day 0 9 0 + 24 * usec_per_hour) \<and>
   get_upcoming_blocks
      \<lparr>profile = default_profile, tasks = [],
       plans = [mk_block ''a'' (on_day 1 9 0) (on_day 1 9 50) 50,
                mk_block ''b'' (on_day 1 10 0) (on_day 1 10 50) 50,
                mk_block ''c'' (on_day 0 9 0) (on_day 0 9 50) 50]\<rparr> (on_day 0 9 0) 24 =
     Inr ([mk_block ''a'' (on_day 1 9 0) (on_day 1 9 50) 50,
           mk_block ''c'' (on_day 0 9 0) (on_day 0 9 50) 50],
          \<lparr>profile = default_profile, tasks = [],
           plans = [mk_block ''a'' (on_day 1 9 0) (on_day 1 9 50) 50,
                    mk_block ''b'' (on_day 1 10 0) (on_day 1 10 50) 50,
                    mk_block ''c'' (on_day 0 9 0) (on_day 0 9 50) 50]\<rparr>) \<and>
   b_start (mk_block ''a'' (on_day 1 9 0) (on_day 1 9 50) 50) = on_day 0 9 0 + 24 * usec_per_hour \<and>
   b_start (mk_block ''b'' (on_day 1 10 0) (on_day 1 10 50) 50) = on_day 0 9 0 + 25 * usec_per_hour \<and>
   \<not> valid_datetime (on_day 0 9 0 + 10 ^ 10 * usec_per_hour) \<and>
   get_upcoming_blocks
      \<lparr>profile = default_profile, tasks = [],
       plans = [mk_block ''a'' (on_day 1 9 0) (on_day 1 9 50) 50,
                mk_block ''b'' (on_day 1 10 0) (on_day 1 10 50) 50,
                mk_block ''c'' (on_day 0 9 0) (on_day 0 9 50) 50]\<rparr> (on_day 0 9 0) (10 ^ 10) =
     Inl OverflowError"
proof -
  let ?st = "\<lparr>profile = default_profile, tasks = [],
       plans = [mk_block ''a'' (on_day 1 9 0) (on_day 1 9 50) 50,
                mk_block ''b'' (on_day 1 10 0) (on_day 1 10 50) 50,
                mk_block ''c'' (on_day 0 9 0) (on_day 0 9 50) 50]\<rparr>"
  have v: "valid_datetime (on_day 0 9 0)" "valid_datetime (on_day 0 9 0 + 24 * usec_per_hour)"
    "\<not> valid_datetime (on_day 0 9 0 + 10 ^ 10 * usec_per_hour)"
    by (simp_all add: valid_datetime_def max_datetime_def on_day_def usec_per_day_def
        usec_per_hour_def usec_per_minute_def)
  from C8_upcoming_blocks [OF v(1), of 24 ?st] v(2)
  have 1: "get_upcoming_blocks ?st (on_day 0 9 0) 24 =
      Inr (filter (\<lambda>b. on_day 0 9 0 \<le> b_start b \<and> b_start b \<le> on_day 0 9 0 + 24 * usec_per_hour)
             (plans ?st), ?st)"
    by blast
  from C8_upcoming_blocks [OF v(1), of "10 ^ 10" ?st] v(3)
  have 2: "get_upcoming_blocks ?st (on_day 0 9 0) (10 ^ 10) = Inl OverflowError"
    by blast
  from 1 2 v show ?thesis
    by (simp add: mk_block_def on_day_def usec_per_day_def usec_per_hour_def usec_per_minute_def)
qed

section \<open>Deadlines\<close>

lemma runs_all2_due:
  assumes "runs p ts current bss current'"
  shows "list_all2 (\<lambda>t bs. \<forall>b \<in> set bs. b_title b = title t \<and> b_end b \<le> due t) ts bss"
proof -
  have "list_all2 (\<lambda>t bs. \<exists>c c'. emits p t (est_minutes t) c bs c') ts bss"
    using assms by (rule runs_all2)
  then show ?thesis
    by (rule list_all2_mono) (use emits_block in blast)
qed

text \<open>
  Claim C2. A returned plan is the concatenation, in processing order, of the blocks
  appended for each task, and each of them carries the title of its task and ends at or
  before the task's due time. When the session computed at the (window-checked) cursor
  ends after the due time, the inner loop stops at once with the plan as it was, so
  that nothing is appended for the remainder, and the outer loop goes on with the next
  task from that cursor.
\<close>

theorem C2_deadline_respected:
  assumes "generate_schedule ts p now = Some (Inr plan)"
  shows "(\<exists>bss. plan = concat bss \<and>
            list_all2 (\<lambda>t bs. \<forall>b \<in> set bs. b_title b = title t \<and> b_end b \<le> due t)
              (sorted_tasks ts) bss) \<and>
         (\<forall>t remaining current cur stop pl.
            0 < remaining \<and> current < due t \<and> snap p current = Inr cur \<and>
            add_timedelta cur (timedelta_minutes (min (real_of_int (max_session p)) remaining)) =
              Inr stop \<and>
            due t < stop \<longrightarrow>
            while_loop p t remaining current pl = Some (Inr (cur, pl))) \<and>
         (\<forall>t rest current cur pl.
            while_loop p t (est_minutes t) current pl = Some (Inr (cur, pl)) \<longrightarrow>
            for_tasks p (t # rest) current pl = for_tasks p rest cur pl)"
proof -
  from generate_schedule_runs [OF assms] obtain bss current' where
    "plan = concat bss" "runs p (sorted_tasks ts) now bss current'" by blast
  then have "\<exists>bss. plan = concat bss \<and>
      list_all2 (\<lambda>t bs. \<forall>b \<in> set bs. b_title b = title t \<and> b_end b \<le> due t)
        (sorted_tasks ts) bss"
    using runs_all2_due by blast
  moreover have "while_loop p t remaining current pl = Some (Inr (cur, pl))"
    if "0 < remaining \<and> current < due t \<and> snap p current = Inr cur \<and>
        add_timedelta cur (timedelta_minutes (min (real_of_int (max_session p)) remaining)) =
          Inr stop \<and>
        due t < stop"
    for t remaining current cur stop pl
    using that by (intro while_loop_break [where stop = stop]) (simp_all add: session_def)
  moreover have "for_tasks p (t # rest) current pl = for_tasks p rest cur pl"
    if "while_loop p t (est_minutes t) current pl = Some (Inr (cur, pl))"
    for t rest current cur pl
    using that by simp
  ultimately show ?thesis by blast
qed

text \<open>
  A quiz due at 09:30 and an essay due at 12:00, one hour each, planned at 09:00: the
  first session of the quiz would end at 09:50, so the quiz gets no block.
\<close>

lemma run_abandon:
  "generate_schedule
     [mk_task ''essay'' (on_day 0 12 0) 1 3, mk_task ''quiz'' (on_day 0 9 30) 1 3]
     default_profile (on_day 0 9 0) =
   Some (Inr [mk_block ''essay'' (on_day 0 9 0) (on_day 0 9 50) 50,
              mk_block ''essay'' (on_day 0 10 0) (on_day 0 10 10) 10])"
  by (simp add: eval_defs)

theorem C2_deadline_respected_witness:
  "generate_schedule
     [mk_task ''essay'' (on_day 0 12 0) 1 3, mk_task ''quiz'' (on_day 0 9 30) 1 3]
     default_profile (on_day 0 9 0) =
   Some (Inr [mk_block ''essay'' (on_day 0 9 0) (on_day 0 9 50) 50,
              mk_block ''essay'' (on_day 0 10 0) (on_day 0 10 10) 10]) \<and>
   (0 < (60::real) \<and> on_day 0 9 0 < due (mk_task ''quiz'' (on_day 0 9 30) 1 3) \<and>
    snap default_profile (on_day 0 9 0) = Inr (on_day 0 9 0) \<and>
    add_timedelta (on_day 0 9 0)
      (timedelta_minutes (min (real_of_int (max_session default_profile)) 60)) =
      Inr (on_day 0 9 50) \<and>
    due (mk_task ''quiz'' (on_day 0 9 30) 1 3) < on_day 0 9 50) \<and>
   while_loop default_profile (mk_task ''quiz'' (on_day 0 9 30) 1 3)
     (est_minutes (mk_task ''quiz'' (on_day 0 9 30) 1 3)) (on_day 0 9 0) [] =
     Some (Inr (on_day 0 9 0, [])) \<and>
   for_tasks default_profile
     [mk_task ''quiz'' (on_day 0 9 30) 1 3, mk_task ''essay'' (on_day 0 12 0) 1 3] (on_day 0 9 0) [] =
   for_tasks default_profile [mk_task ''essay'' (on_day 0 12 0) 1 3] (on_day 0 9 0) []"
proof -
  let ?quiz = "mk_task ''quiz'' (on_day 0 9 30) 1 3"
  have hyp: "0 < (60::real) \<and> on_day 0 9 0 < due ?quiz \<and>
    snap default_profile (on_day 0 9 0) = Inr (on_day 0 9 0) \<and>
    add_timedelta (on_day 0 9 0)
      (timedelta_minutes (min (real_of_int (max_session default_profile)) 60)) =
      Inr (on_day 0 9 50) \<and>
    due ?quiz < on_day 0 9 50"
    by (simp add: eval_defs)
  have est: "est_minutes ?quiz = 60" by (simp add: eval_defs)
  note c2 = C2_deadline_respected [OF run_abandon]
  note brk = c2 [THEN conjunct2, THEN conjunct1, rule_format]
  note nxt = c2 [THEN conjunct2, THEN conjunct2, rule_format]
  from brk [OF hyp] have w: "while_loop default_profile ?quiz 60 (on_day 0 9 0) [] =
      Some (Inr (on_day 0 9 0, []))" .
  with est have "while_loop default_profile ?quiz (est_minutes ?quiz) (on_day 0 9 0) [] =
      Some (Inr (on_day 0 9 0, []))" by simp
  from nxt [OF this] have "for_tasks default_profile
      [?quiz, mk_task ''essay'' (on_day 0 12 0) 1 3] (on_day 0 9 0) [] =
    for_tasks default_profile [mk_task ''essay'' (on_day 0 12 0) 1 3] (on_day 0 9 0) []" .
  with run_abandon hyp w est show ?thesis by simp
qed

section \<open>The daily window\<close>





section \<open>The fields of a block\<close>






section \<open>Profiles that the specification calls invalid\<close>








section \<open>The order in which tasks are processed\<close>

lemma sorted_tasks_order:
  "sorted_wrt (\<lambda>a b. due a < due b \<or>
       (due a = due b \<and> get_or (priority b) 3 \<le> get_or (priority a) 3)) (sorted_tasks ts)"
proof -
  have "sorted (map task_key (sorted_tasks ts))"
    by (simp add: sorted_tasks_def)
  then have "sorted_wrt (\<lambda>a b. task_key a \<le> task_key b) (sorted_tasks ts)"
    by (simp add: sorted_map)
  then show ?thesis
    by (rule sorted_wrt_mono_rel [rotated]) (auto simp: task_key_def)
qed

lemma sorted_tasks_pair:
  assumes "due a = due b" "get_or (priority a) 3 < get_or (priority b) 3"
  shows "sorted_tasks [a, b] = [b, a]" "sorted_tasks [b, a] = [b, a]"
  using assms by (simp_all add: sorted_tasks_def task_key_def)

lemma generate_schedule_for_tasks:
  "generate_schedule ts p now = map_option (map_sum id snd) (for_tasks p (sorted_tasks ts) now [])"
  by (simp add: generate_schedule_def split: option.splits sum.splits)

lemma two_tasks_blocks:
  assumes "0 < max_session p" "for_tasks p [b, a] now [] = Some (Inr (current', plan))"
  shows "\<exists>c1 bs_b bs_a.
           while_loop p b (est_minutes b) now [] = Some (Inr (c1, bs_b)) \<and>
           while_loop p a (est_minutes a) c1 bs_b = Some (Inr (current', plan)) \<and>
           plan = bs_b @ bs_a \<and>
           (\<forall>x \<in> set bs_b. b_title x = title b) \<and> (\<forall>y \<in> set bs_a. b_title y = title a) \<and>
           (\<forall>x \<in> set bs_b. \<forall>y \<in> set bs_a. b_start x < b_start y)"
proof -
  from assms(2) obtain c1 bs1 where
    w1: "while_loop p b (est_minutes b) now [] = Some (Inr (c1, bs1))" and
    w2: "while_loop p a (est_minutes a) c1 bs1 = Some (Inr (current', plan))"
    by (auto split: option.splits sum.splits)
  from while_loop_emits [OF w1] have e1: "emits p b (est_minutes b) now bs1 c1" by simp
  from while_loop_emits [OF w2] obtain bs_a where
    e2: "plan = bs1 @ bs_a" "emits p a (est_minutes a) c1 bs_a current'" by blast
  have "b_start x < b_start y" if "x \<in> set bs1" "y \<in> set bs_a" for x y
    using emits_block_order [OF assms(1) e1 that(1)] emits_block_order [OF assms(1) e2(2) that(2)]
    by (simp add: usec_per_minute_def)
  moreover have "b_title x = title b" if "x \<in> set bs1" for x
    using emits_block [OF e1 that] by simp
  moreover have "b_title y = title a" if "y \<in> set bs_a" for y
    using emits_block [OF e2(2) that] by simp
  ultimately show ?thesis using w1 w2 e2(1) by blast
qed

text \<open>
  Claim C3. The outer loop runs over \<open>sorted_tasks\<close>, a permutation of the task list
  in ascending order of \<open>due\<close> in which, among tasks with the same \<open>due\<close>, a larger
  priority number (3 when absent) comes first, tasks with the same key keeping their
  order. For two tasks \<open>a\<close> and \<open>b\<close> with the same \<open>due\<close> and a larger priority number
  for \<open>b\<close>, both input orders are processed as \<open>b\<close> then \<open>a\<close>, and in the returned plan
  the blocks of \<open>b\<close> come first and start before every block of \<open>a\<close>.
\<close>

theorem C3_processing_order:
  "mset (sorted_tasks ts) = mset ts \<and>
   sorted_wrt (\<lambda>a b. due a < due b \<or>
       (due a = due b \<and> get_or (priority b) 3 \<le> get_or (priority a) 3)) (sorted_tasks ts) \<and>
   filter (\<lambda>t. task_key t = k) (sorted_tasks ts) = filter (\<lambda>t. task_key t = k) ts \<and>
   generate_schedule ts p now =
     map_option (map_sum id snd) (for_tasks p (sorted_tasks ts) now []) \<and>
   (due a = due b \<and> get_or (priority a) 3 < get_or (priority b) 3 \<longrightarrow>
      sorted_tasks [a, b] = [b, a] \<and> sorted_tasks [b, a] = [b, a] \<and>
      generate_schedule [a, b] p now = generate_schedule [b, a] p now \<and>
      (0 < max_session p \<and> generate_schedule [a, b] p now = Some (Inr plan) \<longrightarrow>
         (\<exists>c1 c2 bs_b bs_a.
            while_loop p b (est_minutes b) now [] = Some (Inr (c1, bs_b)) \<and>
            while_loop p a (est_minutes a) c1 bs_b = Some (Inr (c2, plan)) \<and>
            plan = bs_b @ bs_a \<and>
            (\<forall>x \<in> set bs_b. b_title x = title b) \<and> (\<forall>y \<in> set bs_a. b_title y = title a) \<and>
            (\<forall>x \<in> set bs_b. \<forall>y \<in> set bs_a. b_start x < b_start y))))"
proof -
  have 1: "mset (sorted_tasks ts) = mset ts" by (simp add: sorted_tasks_def)
  have 3: "filter (\<lambda>t. task_key t = k) (sorted_tasks ts) = filter (\<lambda>t. task_key t = k) ts"
    by (simp add: sorted_tasks_def sort_key_stable)
  have 5: "sorted_tasks [a, b] = [b, a] \<and> sorted_tasks [b, a] = [b, a] \<and>
      generate_schedule [a, b] p now = generate_schedule [b, a] p now \<and>
      (0 < max_session p \<and> generate_schedule [a, b] p now = Some (Inr plan) \<longrightarrow>
         (\<exists>c1 c2 bs_b bs_a.
            while_loop p b (est_minutes b) now [] = Some (Inr (c1, bs_b)) \<and>
            while_loop p a (est_minutes a) c1 bs_b = Some (Inr (c2, plan)) \<and>
            plan = bs_b @ bs_a \<and>
            (\<forall>x \<in> set bs_b. b_title x = title b) \<and> (\<forall>y \<in> set bs_a. b_title y = title a) \<and>
            (\<forall>x \<in> set bs_b. \<forall>y \<in> set bs_a. b_start x < b_start y)))"
    if tie: "due a = due b \<and> get_or (priority a) 3 < get_or (priority b) 3"
  proof -
    from tie have s: "sorted_tasks [a, b] = [b, a]" "sorted_tasks [b, a] = [b, a]"
      by (simp_all add: sorted_tasks_pair)
    then have g: "generate_schedule [a, b] p now = generate_schedule [b, a] p now"
      by (simp add: generate_schedule_def)
    have "\<exists>c1 c2 bs_b bs_a.
            while_loop p b (est_minutes b) now [] = Some (Inr (c1, bs_b)) \<and>
            while_loop p a (est_minutes a) c1 bs_b = Some (Inr (c2, plan)) \<and>
            plan = bs_b @ bs_a \<and>
            (\<forall>x \<in> set bs_b. b_title x = title b) \<and> (\<forall>y \<in> set bs_a. b_title y = title a) \<and>
            (\<forall>x \<in> set bs_b. \<forall>y \<in> set bs_a. b_start x < b_start y)"
      if run: "0 < max_session p \<and> generate_schedule [a, b] p now = Some (Inr plan)"
    proof -
      from run s(1) obtain c2 where "for_tasks p [b, a] now [] = Some (Inr (c2, plan))"
        by (auto simp: generate_schedule_def split: option.splits sum.splits)
      with run two_tasks_blocks [of p b a now c2 plan] show ?thesis by blast
    qed
    with s g show ?thesis by blast
  qed
  from 1 sorted_tasks_order 3 generate_schedule_for_tasks 5 show ?thesis by blast
qed


text \<open>
  Two tasks of one hour due at noon, with priorities 1 and 5, planned at 09:00: the
  task with priority 5 gets the first two blocks.
\<close>

lemma run_tie:
  "generate_schedule
     [mk_task ''low'' (on_day 0 12 0) 1 1, mk_task ''high'' (on_day 0 12 0) 1 5]
     default_profile (on_day 0 9 0) =
   Some (Inr [mk_block ''high'' (on_day 0 9 0) (on_day 0 9 50) 50,
              mk_block ''high'' (on_day 0 10 0) (on_day 0 10 10) 10,
              mk_block ''low'' (on_day 0 10 20) (on_day 0 11 10) 50,
              mk_block ''low'' (on_day 0 11 20) (on_day 0 11 30) 10])"
  by (simp add: eval_defs)

theorem C3_processing_order_witness:
  "due (mk_task ''low'' (on_day 0 12 0) 1 1) = due (mk_task ''high'' (on_day 0 12 0) 1 5) \<and>
   get_or (priority (mk_task ''low'' (on_day 0 12 0) 1 1)) 3 <
     get_or (priority (mk_task ''high'' (on_day 0 12 0) 1 5)) 3 \<and>
   0 < max_session default_profile \<and>
   generate_schedule
     [mk_task ''low'' (on_day 0 12 0) 1 1, mk_task ''high'' (on_day 0 12 0) 1 5]
     default_profile (on_day 0 9 0) =
   Some (Inr [mk_block ''high'' (on_day 0 9 0) (on_day 0 9 50) 50,
              mk_block ''high'' (on_day 0 10 0) (on_day 0 10 10) 10,
              mk_block ''low'' (on_day 0 10 20) (on_day 0 11 10) 50,
              mk_block ''low'' (on_day 0 11 20) (on_day 0 11 30) 10]) \<and>
   sorted_tasks [mk_task ''low'' (on_day 0 12 0) 1 1, mk_task ''high'' (on_day 0 12 0) 1 5] =
     [mk_task ''high'' (on_day 0 12 0) 1 5, mk_task ''low'' (on_day 0 12 0) 1 1] \<and>
   (\<exists>c1 bs_b. while_loop default_profile (mk_task ''high'' (on_day 0 12 0) 1 5)
      (est_minutes (mk_task ''high'' (on_day 0 12 0) 1 5)) (on_day 0 9 0) [] =
      Some (Inr (c1, bs_b)))"
proof -
  let ?a = "mk_task ''low'' (on_day 0 12 0) 1 1"
  let ?b = "mk_task ''high'' (on_day 0 12 0) 1 5"
  let ?plan = "[mk_block ''high'' (on_day 0 9 0) (on_day 0 9 50) 50,
              mk_block ''high'' (on_day 0 10 0) (on_day 0 10 10) 10,
              mk_block ''low'' (on_day 0 10 20) (on_day 0 11 10) 50,
              mk_block ''low'' (on_day 0 11 20) (on_day 0 11 30) 10]"
  have tie: "due ?a = due ?b \<and> get_or (priority ?a) 3 < get_or (priority ?b) 3"
    by (simp add: mk_task_def get_or_def)
  have run: "0 < max_session default_profile \<and>
      generate_schedule [?a, ?b] default_profile (on_day 0 9 0) = Some (Inr ?plan)"
    using default_max_session run_tie by simp
  note c3 = C3_processing_order [where a = ?a and b = ?b and p = default_profile
      and now = "on_day 0 9 0" and plan = ?plan]
  note pair = c3 [THEN conjunct2, THEN conjunct2, THEN conjunct2, THEN conjunct2, rule_format, OF tie]
  note s = pair [THEN conjunct1]
  note blocks = pair [THEN conjunct2, THEN conjunct2, THEN conjunct2, rule_format, OF run]
  from blocks have "\<exists>c1 bs_b. while_loop default_profile ?b (est_minutes ?b) (on_day 0 9 0) [] =
      Some (Inr (c1, bs_b))"
    by blast
  with tie run s show ?thesis by blast
qed

end
